theory Spec2Isabelle
  imports Main
begin

section \<open>The front-end server configuration loader (appengine/server/config.go)\<close>

text \<open>
  The Go package \<open>server\<close> keeps one package-level variable \<open>config\<close> of type
  \<open>appConfig\<close> and one function \<open>readConfig\<close>, which opens \<open>config.json\<close>,
  decodes it with \<open>encoding/json\<close> straight into \<open>config\<close>, and then fills three
  defaults. The development below embeds the struct as a record, the package variable
  and the file handle events as an explicit state, the file system and the external
  \<open>weasel.DefaultStorage.Base\<close> as an environment, and every error return as a value.
\<close>

subsection \<open>Data\<close>

text \<open>
  A Go \<open>map[string]string\<close>: \<open>None\<close> is the nil map, \<open>Some m\<close> an allocated map.
\<close>

type_synonym gomap = "(string \<rightharpoonup> string) option"

text \<open>The struct \<open>appConfig\<close> (config.go, lines 32-47), field for field.\<close>

record appConfig =
  Redirects :: gomap
  Buckets :: gomap
  WebRoot :: string
  Index :: string
  HookPath :: string
  GCSBase :: string

text \<open>The value of \<open>var config appConfig\<close> before anything is stored: Go's zero value.\<close>

definition zeroConfig :: appConfig where
  "zeroConfig = \<lparr>Redirects = None, Buckets = None, WebRoot = [], Index = [],
                 HookPath = [], GCSBase = []\<rparr>"

text \<open>
  A JSON value as \<open>encoding/json\<close> scans it. Object members are kept as a list: the
  decoder visits them in document order and a document may repeat a key. Strings are
  the unquoted contents; the text of a number literal is kept as it is written.
\<close>

datatype json =
    JNull
  | JBool bool
  | JNumber string
  | JString string
  | JArray "json list"
  | JObject "(string \<times> json) list"

text \<open>
  The errors \<open>readConfig\<close> can return: \<open>PathError\<close> from \<open>os.Open\<close>; \<open>EOF\<close>,
  \<open>ErrUnexpectedEOF\<close> and \<open>SyntaxError\<close> from the decoder reading the stream;
  \<open>UnmarshalTypeError value type\<close> when a JSON value of kind \<open>value\<close> cannot be stored
  in a Go value of type \<open>type\<close>.
\<close>

datatype error =
    PathError string
  | EOF
  | ErrUnexpectedEOF
  | SyntaxError string
  | UnmarshalTypeError string string

text \<open>
  What \<open>Decoder.Decode\<close> finds at the head of the opened file: it first reads one
  complete JSON value and checks its syntax (\<open>Decoder.readValue\<close>); a read or syntax
  error is returned from there, before the target is touched. Otherwise the value is
  handed to \<open>decodeState.unmarshal\<close>.
\<close>

datatype stream = Malformed error | Document json

text \<open>Events on the file handle \<open>r\<close> of \<open>readConfig\<close>.\<close>

datatype event = EvOpen string | EvRead | EvClose

text \<open>
  The environment of a call: \<open>fs\<close> is what \<open>os.Open\<close> gives for a path (an error, or
  the contents behind the handle), \<open>DefaultStorage_Base\<close> is the field \<open>Base\<close> of the
  external package variable \<open>weasel.DefaultStorage\<close>.
\<close>

record env =
  fs :: "string \<Rightarrow> error + stream"
  DefaultStorage_Base :: string

text \<open>The mutable state: the package variable \<open>config\<close>, and the handle events so far.\<close>

record state =
  config :: appConfig
  trace :: "event list"

definition initState :: state where
  "initState = \<lparr>config = zeroConfig, trace = []\<rparr>"

definition configFile :: string where
  "configFile = ''config.json''"

subsection \<open>Decoding with \<open>encoding/json\<close>\<close>

text \<open>
  \<open>decodeState.saveError\<close>: only the first type error of a decode is remembered; decoding
  goes on after it.
\<close>

definition saveError :: "error \<Rightarrow> error option \<Rightarrow> error option" where
  "saveError err saved = (case saved of None \<Rightarrow> Some err | Some e \<Rightarrow> Some e)"

text \<open>The \<open>Value\<close> field of an \<open>UnmarshalTypeError\<close>.\<close>

fun kindName :: "json \<Rightarrow> string" where
  "kindName JNull = ''null''"
| "kindName (JBool b) = ''bool''"
| "kindName (JNumber n) = ''number''"
| "kindName (JString s) = ''string''"
| "kindName (JArray xs) = ''array''"
| "kindName (JObject ms) = ''object''"

text \<open>
  Storing a JSON value in a Go \<open>string\<close> (\<open>literalStore\<close>, and the \<open>default\<close> branches of
  \<open>array\<close> and \<open>object\<close>): a string is stored, \<open>null\<close> leaves the target as it is, and
  any other value leaves the target as it is and saves a type error.
\<close>

fun storeString :: "json \<Rightarrow> string \<times> error option \<Rightarrow> string \<times> error option" where
  "storeString JNull (s, saved) = (s, saved)"
| "storeString (JString t) (s, saved) = (t, saved)"
| "storeString v (s, saved) = (s, saveError (UnmarshalTypeError (kindName v) ''string'') saved)"

text \<open>
  One round of the loop of \<open>decodeState.object\<close> on a map target: the member's value is
  decoded into a fresh zero element, which is then written under the key
  (\<open>SetMapIndex\<close>), also when the value did not fit.
\<close>

fun mapMember ::
  "string \<times> json \<Rightarrow> (string \<rightharpoonup> string) \<times> error option \<Rightarrow> (string \<rightharpoonup> string) \<times> error option" where
  "mapMember (key, v) (m, saved) =
     (case storeString v ([], saved) of (elem, saved') \<Rightarrow> (m(key \<mapsto> elem), saved'))"

text \<open>
  Storing a JSON value in a \<open>map[string]string\<close>: \<open>null\<close> sets the map to nil, an object
  allocates the map if it is nil and then stores its members into it in order, any other
  value saves a type error.
\<close>

fun storeMap :: "json \<Rightarrow> gomap \<times> error option \<Rightarrow> gomap \<times> error option" where
  "storeMap JNull (m, saved) = (None, saved)"
| "storeMap (JObject ms) (m, saved) =
     (case fold mapMember ms (case m of None \<Rightarrow> Map.empty | Some x \<Rightarrow> x, saved) of
        (m', saved') \<Rightarrow> (Some m', saved'))"
| "storeMap v (m, saved) =
     (m, saveError (UnmarshalTypeError (kindName v) ''map[string]string'') saved)"

text \<open>The six fields, and the key each carries in its \<open>json\<close> struct tag.\<close>

datatype field = FRedirects | FBuckets | FWebRoot | FIndex | FHookPath | FGCSBase

definition fields :: "(string \<times> field) list" where
  "fields = [(''redirects'', FRedirects), (''buckets'', FBuckets), (''webroot'', FWebRoot),
             (''index'', FIndex), (''hook'', FHookPath), (''gcs'', FGCSBase)]"

text \<open>
  \<open>foldName\<close> of \<open>encoding/json\<close>: ASCII letters are folded to upper case; the Kelvin
  sign U+212A (UTF-8 \<open>E2 84 AA\<close>) and the long s U+017F (UTF-8 \<open>C5 BF\<close>) are the two
  other runes whose case orbit holds an ASCII letter, and fold to \<open>K\<close> and \<open>S\<close>. Every
  other byte is kept: the folded key is only compared with the folded tags above, which
  are ASCII, so how the other runes fold does not change the outcome.
\<close>

definition upperASCII :: "char \<Rightarrow> char" where
  "upperASCII c =
     (let n = (of_char c :: nat) in if 97 \<le> n \<and> n \<le> 122 then char_of (n - 32) else c)"

fun foldName :: "string \<Rightarrow> string" where
  "foldName [] = []"
| "foldName (c # cs) =
     (if c = CHR 0xE2 \<and> take 2 cs = [CHR 0x84, CHR 0xAA] then CHR ''K'' # foldName (drop 2 cs)
      else if c = CHR 0xC5 \<and> take 1 cs = [CHR 0xBF] then CHR ''S'' # foldName (drop 1 cs)
      else upperASCII c # foldName cs)"

text \<open>
  The field a member key is decoded into: an exact match of a tag first, a match of the
  folded names otherwise, none for an unknown key (whose value is skipped).
\<close>

definition findField :: "string \<Rightarrow> field option" where
  "findField key =
     (case map_of fields key of
        Some f \<Rightarrow> Some f
      | None \<Rightarrow> map_of (map (\<lambda>(n, f). (foldName n, f)) fields) (foldName key))"

text \<open>One round of the loop of \<open>decodeState.object\<close> on the struct \<open>appConfig\<close>.\<close>

fun structMember ::
  "string \<times> json \<Rightarrow> appConfig \<times> error option \<Rightarrow> appConfig \<times> error option" where
  "structMember (key, v) (c, saved) =
     (case findField key of
        None \<Rightarrow> (c, saved)
      | Some FRedirects \<Rightarrow>
          (case storeMap v (Redirects c, saved) of (m, saved') \<Rightarrow> (c\<lparr>Redirects := m\<rparr>, saved'))
      | Some FBuckets \<Rightarrow>
          (case storeMap v (Buckets c, saved) of (m, saved') \<Rightarrow> (c\<lparr>Buckets := m\<rparr>, saved'))
      | Some FWebRoot \<Rightarrow>
          (case storeString v (WebRoot c, saved) of (s, saved') \<Rightarrow> (c\<lparr>WebRoot := s\<rparr>, saved'))
      | Some FIndex \<Rightarrow>
          (case storeString v (Index c, saved) of (s, saved') \<Rightarrow> (c\<lparr>Index := s\<rparr>, saved'))
      | Some FHookPath \<Rightarrow>
          (case storeString v (HookPath c, saved) of (s, saved') \<Rightarrow> (c\<lparr>HookPath := s\<rparr>, saved'))
      | Some FGCSBase \<Rightarrow>
          (case storeString v (GCSBase c, saved) of (s, saved') \<Rightarrow> (c\<lparr>GCSBase := s\<rparr>, saved')))"

text \<open>
  \<open>decodeState.unmarshal\<close> with the target \<open>&config\<close>: \<open>null\<close> changes nothing, an object
  is stored member by member into the struct as it is, any other value is a type error.
  The result is the struct after the decode and the saved error, if any.
\<close>

fun unmarshal :: "json \<Rightarrow> appConfig \<Rightarrow> appConfig \<times> error option" where
  "unmarshal JNull c = (c, None)"
| "unmarshal (JObject ms) c = fold structMember ms (c, None)"
| "unmarshal v c = (c, Some (UnmarshalTypeError (kindName v) ''server.appConfig''))"

text \<open>\<open>json.NewDecoder(r).Decode(&config)\<close>: the error returned and the new \<open>config\<close>.\<close>

fun Decode :: "stream \<Rightarrow> appConfig \<Rightarrow> error option \<times> appConfig" where
  "Decode (Malformed e) c = (Some e, c)"
| "Decode (Document j) c = (case unmarshal j c of (c', saved) \<Rightarrow> (saved, c'))"

subsection \<open>readConfig\<close>

text \<open>The three default-filling statements (config.go, lines 60-62, 63-65 and 66-68).\<close>

definition fillWebRoot :: "appConfig \<Rightarrow> appConfig" where
  "fillWebRoot c = (if WebRoot c = [] then c\<lparr>WebRoot := ''/''\<rparr> else c)"

definition fillHookPath :: "appConfig \<Rightarrow> appConfig" where
  "fillHookPath c = (if HookPath c = [] then c\<lparr>HookPath := ''/-/hook/gcs''\<rparr> else c)"

definition fillGCSBase :: "string \<Rightarrow> appConfig \<Rightarrow> appConfig" where
  "fillGCSBase base c = (if GCSBase c = [] then c\<lparr>GCSBase := base\<rparr> else c)"

text \<open>The three statements one after the other, in the order of the source.\<close>

definition fillDefaults :: "string \<Rightarrow> appConfig \<Rightarrow> appConfig" where
  "fillDefaults base c = fillGCSBase base (fillHookPath (fillWebRoot c))"

text \<open>
  The statements of \<open>readConfig\<close> after \<open>defer r.Close()\<close> (lines 57-69): decode into
  \<open>config\<close>, return the error if there is one, otherwise fill the defaults in the order
  of the source and return nil.
\<close>

definition readBody :: "env \<Rightarrow> stream \<Rightarrow> state \<Rightarrow> error option \<times> state" where
  "readBody e r s =
     (case Decode r (config s) of
        (Some err, c) \<Rightarrow> (Some err, s\<lparr>config := c, trace := trace s @ [EvRead]\<rparr>)
      | (None, c) \<Rightarrow>
          (None, s\<lparr>config := fillDefaults (DefaultStorage_Base e) c,
                   trace := trace s @ [EvRead]\<rparr>))"

text \<open>\<open>r.Close()\<close>.\<close>

definition Close :: "state \<Rightarrow> state" where
  "Close s = s\<lparr>trace := trace s @ [EvClose]\<rparr>"

text \<open>
  \<open>readConfig\<close> (lines 51-70). A failed \<open>os.Open\<close> returns its error at once; after a
  successful one the deferred \<open>r.Close()\<close> runs when the body returns, whatever it returns.
\<close>

definition readConfig :: "env \<Rightarrow> state \<Rightarrow> error option \<times> state" where
  "readConfig e s =
     (case fs e configFile of
        Inl err \<Rightarrow> (Some err, s)
      | Inr r \<Rightarrow>
          (case readBody e r (s\<lparr>trace := trace s @ [EvOpen configFile]\<rparr>) of
             (res, s') \<Rightarrow> (res, Close s')))"


subsection \<open>Notions used to state the properties\<close>

text \<open>
  The values a document supplies for a field: the values of the members whose key is
  decoded into that field, in document order. A document that is not an object supplies
  nothing.
\<close>

definition members_of :: "field \<Rightarrow> (string \<times> json) list \<Rightarrow> json list" where
  "members_of f ms = map snd (filter (\<lambda>kv. findField (fst kv) = Some f) ms)"

fun supplied :: "field \<Rightarrow> json \<Rightarrow> json list" where
  "supplied f (JObject ms) = members_of f ms"
| "supplied f v = []"

fun isObject :: "json \<Rightarrow> bool" where
  "isObject (JObject ms) = True"
| "isObject v = False"

text \<open>
  What \<open>storeString\<close>, \<open>mapMember\<close>, \<open>storeMap\<close> and \<open>structMember\<close> do to their target,
  apart from the saved error.
\<close>

fun stringVal :: "json \<Rightarrow> string \<Rightarrow> string" where
  "stringVal (JString t) s = t"
| "stringVal v s = s"

definition putElem :: "string \<times> json \<Rightarrow> (string \<rightharpoonup> string) \<Rightarrow> (string \<rightharpoonup> string)" where
  "putElem kv m = m(fst kv \<mapsto> stringVal (snd kv) [])"

definition mapVal :: "json \<Rightarrow> gomap \<Rightarrow> gomap" where
  "mapVal v m = fst (storeMap v (m, None))"

definition setField :: "string \<times> json \<Rightarrow> appConfig \<Rightarrow> appConfig" where
  "setField kv c = fst (structMember kv (c, None))"

text \<open>
  The shape of a configuration document (section 6 of the specification): an object (or
  \<open>null\<close>) in which \<open>redirects\<close> and \<open>buckets\<close> are objects of strings, and \<open>webroot\<close>,
  \<open>index\<close>, \<open>hook\<close> and \<open>gcs\<close> are strings; \<open>null\<close> is allowed in the place of each, and a
  member with an unknown key may hold anything. Nothing is asked of the keys of the two
  maps or of the contents of any string.
\<close>

fun stringOK :: "json \<Rightarrow> bool" where
  "stringOK JNull = True"
| "stringOK (JString s) = True"
| "stringOK v = False"

fun mapOK :: "json \<Rightarrow> bool" where
  "mapOK JNull = True"
| "mapOK (JObject ms) = list_all (\<lambda>kv. stringOK (snd kv)) ms"
| "mapOK v = False"

definition memberOK :: "string \<times> json \<Rightarrow> bool" where
  "memberOK kv =
     (case findField (fst kv) of
        None \<Rightarrow> True
      | Some f \<Rightarrow> if f = FRedirects \<or> f = FBuckets then mapOK (snd kv) else stringOK (snd kv))"

fun conforms :: "json \<Rightarrow> bool" where
  "conforms JNull = True"
| "conforms (JObject ms) = list_all memberOK ms"
| "conforms v = False"

text \<open>The three defaults filled in one pass over the struct.\<close>

definition fillAtOnce :: "string \<Rightarrow> appConfig \<Rightarrow> appConfig" where
  "fillAtOnce base c =
     c\<lparr>WebRoot := (if WebRoot c = [] then ''/'' else WebRoot c),
       HookPath := (if HookPath c = [] then ''/-/hook/gcs'' else HookPath c),
       GCSBase := (if GCSBase c = [] then base else GCSBase c)\<rparr>"

text \<open>
  Well-formed UTF-8 as the package \<open>unicode/utf8\<close> decides it. \<open>runeLen s\<close> is the number
  of bytes of the encoded rune at the head of \<open>s\<close>, and 0 where \<open>utf8.DecodeRune\<close> gives
  \<open>(RuneError, 1)\<close>: an empty or truncated input, a stray continuation byte, an overlong
  form, a surrogate, or a value above U+10FFFF.
\<close>

fun contBytes :: "nat \<Rightarrow> string \<Rightarrow> bool" where
  "contBytes 0 cs = True"
| "contBytes (Suc n) [] = False"
| "contBytes (Suc n) (c # cs) =
     (128 \<le> (of_char c :: nat) \<and> (of_char c :: nat) \<le> 191 \<and> contBytes n cs)"

definition accept :: "nat \<Rightarrow> nat \<Rightarrow> nat \<Rightarrow> string \<Rightarrow> bool" where
  "accept lo hi n cs =
     (case cs of
        [] \<Rightarrow> False
      | c # cs' \<Rightarrow> lo \<le> (of_char c :: nat) \<and> (of_char c :: nat) \<le> hi \<and> contBytes n cs')"

definition runeLen :: "string \<Rightarrow> nat" where
  "runeLen s =
     (case s of
        [] \<Rightarrow> 0
      | c # cs \<Rightarrow>
          (let b = (of_char c :: nat) in
           if b < 128 then 1
           else if b < 194 then 0
           else if b < 224 then (if accept 128 191 0 cs then 2 else 0)
           else if b = 224 then (if accept 160 191 1 cs then 3 else 0)
           else if b = 237 then (if accept 128 159 1 cs then 3 else 0)
           else if b < 240 then (if accept 128 191 1 cs then 3 else 0)
           else if b = 240 then (if accept 144 191 2 cs then 4 else 0)
           else if b < 244 then (if accept 128 191 2 cs then 4 else 0)
           else if b = 244 then (if accept 128 143 2 cs then 4 else 0)
           else 0))"

text \<open>\<open>utf8.ValidString\<close>.\<close>

fun validUTF8 :: "string \<Rightarrow> bool" where
  "validUTF8 [] = True"
| "validUTF8 (c # cs) =
     (if runeLen (c # cs) = 0 then False
      else validUTF8 (drop (runeLen (c # cs)) (c # cs)))"

text \<open>
  What \<open>encoding/json\<close> makes of the bytes of a Go string when it writes it as a JSON
  string and reads it back: every byte that is not part of a well-formed sequence
  becomes U+FFFD (UTF-8 \<open>EF BF BD\<close>), the rest is kept.
\<close>

fun coerceUTF8 :: "string \<Rightarrow> string" where
  "coerceUTF8 [] = []"
| "coerceUTF8 (c # cs) =
     (if runeLen (c # cs) = 0 then [CHR 0xEF, CHR 0xBF, CHR 0xBD] @ coerceUTF8 cs
      else take (runeLen (c # cs)) (c # cs) @ coerceUTF8 (drop (runeLen (c # cs)) (c # cs)))"

text \<open>
  Modelled from the spec: the repository has no encoder, so the JSON encoding of an
  \<open>appConfig\<close> follows the words of the round-trip property: an object with the declared
  keys \<open>redirects\<close>, \<open>buckets\<close>, \<open>webroot\<close>, \<open>index\<close>, \<open>hook\<close> and \<open>gcs\<close>, in the order of
  the declaration. A nil map is encoded as \<open>null\<close>, an allocated one as an object with
  one member for each key of the list \<open>ks\<close>, which enumerates the keys of the map
  (\<open>json.Marshal\<close> takes them in sorted order). Every string, key or value, is written
  as \<open>encoding/json\<close> writes it: coerced to well-formed UTF-8.
\<close>

definition marshalMap :: "string list \<Rightarrow> gomap \<Rightarrow> json" where
  "marshalMap ks m =
     (case m of
        None \<Rightarrow> JNull
      | Some f \<Rightarrow>
          JObject (map (\<lambda>k. (coerceUTF8 k,
                              JString (coerceUTF8 (case f k of None \<Rightarrow> [] | Some v \<Rightarrow> v)))) ks))"

definition marshal :: "string list \<Rightarrow> string list \<Rightarrow> appConfig \<Rightarrow> json" where
  "marshal rks bks c =
     JObject [(''redirects'', marshalMap rks (Redirects c)),
              (''buckets'', marshalMap bks (Buckets c)),
              (''webroot'', JString (coerceUTF8 (WebRoot c))),
              (''index'', JString (coerceUTF8 (Index c))),
              (''hook'', JString (coerceUTF8 (HookPath c))),
              (''gcs'', JString (coerceUTF8 (GCSBase c)))]"

text \<open>The list \<open>ks\<close> enumerates the keys of the map \<open>m\<close>; nothing is asked for a nil map.\<close>

definition enumerates :: "string list \<Rightarrow> gomap \<Rightarrow> bool" where
  "enumerates ks m = (case m of None \<Rightarrow> True | Some f \<Rightarrow> set ks = dom f)"

text \<open>
  Every key of the list, and the value the map binds it to, is well-formed UTF-8; and
  every string of an \<open>appConfig\<close> is, its maps read through the key lists.
\<close>

definition validEntries :: "string list \<Rightarrow> gomap \<Rightarrow> bool" where
  "validEntries ks m =
     (case m of
        None \<Rightarrow> True
      | Some f \<Rightarrow>
          list_all (\<lambda>k. validUTF8 k \<and> (case f k of None \<Rightarrow> True | Some v \<Rightarrow> validUTF8 v)) ks)"

definition validStrings :: "string list \<Rightarrow> string list \<Rightarrow> appConfig \<Rightarrow> bool" where
  "validStrings rks bks c =
     (validUTF8 (WebRoot c) \<and> validUTF8 (Index c) \<and> validUTF8 (HookPath c) \<and>
      validUTF8 (GCSBase c) \<and> validEntries rks (Redirects c) \<and> validEntries bks (Buckets c))"

subsection \<open>Concrete inputs\<close>

text \<open>
  An environment in which \<open>os.Open\<close> of \<open>config.json\<close> gives \<open>r\<close> and the external
  base URL is \<open>base\<close>; every other path does not exist.
\<close>

definition envOf :: "error + stream \<Rightarrow> string \<Rightarrow> env" where
  "envOf r base =
     \<lparr>fs = (\<lambda>p. if p = configFile then r else Inl (PathError p)), DefaultStorage_Base = base\<rparr>"

definition gcsURL :: string where
  "gcsURL = ''https://storage.googleapis.com''"

definition noSuchFile :: error where
  "noSuchFile = PathError ''open config.json: no such file or directory''"

definition syntaxErr :: error where
  "syntaxErr = SyntaxError ''invalid character '}' looking for beginning of object key string''"

text \<open>The document \<^verbatim>\<open>{"buckets":{"default":"b1"}}\<close>.\<close>

definition scenarioDoc :: json where
  "scenarioDoc = JObject [(''buckets'', JObject [(''default'', JString ''b1'')])]"

text \<open>The document \<^verbatim>\<open>{"webroot":"/x","index":5}\<close>: well-formed JSON, but \<open>index\<close> is no string.\<close>

definition mismatchDoc :: json where
  "mismatchDoc = JObject [(''webroot'', JString ''/x''), (''index'', JNumber ''5'')]"

text \<open>
  \<^verbatim>\<open>{"buckets":{"default":"b1"},"hook":""}\<close>: \<open>webroot\<close> and \<open>gcs\<close> are omitted, \<open>hook\<close> is
  supplied as the empty string.
\<close>

definition emptyHookDoc :: json where
  "emptyHookDoc =
     JObject [(''buckets'', JObject [(''default'', JString ''b1'')]), (''hook'', JString [])]"

text \<open>A document that supplies all three fields that have a default.\<close>

definition explicitDoc :: json where
  "explicitDoc =
     JObject [(''webroot'', JString ''/app/''), (''hook'', JString ''/-/notify''),
              (''gcs'', JString ''https://gcs.example.com'')]"

text \<open>
  A document of the right shape whose contents break all three conventions: one redirect
  target ends with \<open>/\<close>, one carries a query string, and \<open>buckets\<close> has no \<open>default\<close> key.
\<close>

definition badContentDoc :: json where
  "badContentDoc =
     JObject [(''redirects'', JObject [(''example.com/a'', JString ''https://example.org/a/''),
                                       (''example.com/b'', JString ''https://example.org/b?x=1'')]),
              (''buckets'', JObject [(''x.com'', JString ''b2'')])]"

text \<open>Two documents for two loads in a row; the second names only \<open>hook\<close>.\<close>

definition firstDoc :: json where
  "firstDoc = JObject [(''webroot'', JString ''/app/''), (''index'', JString ''index.html''),
                       (''buckets'', JObject [(''default'', JString ''b1'')])]"

definition secondDoc :: json where
  "secondDoc = JObject [(''hook'', JString ''/-/notify'')]"

text \<open>An \<open>appConfig\<close> with every field populated.\<close>

definition fullConfig :: appConfig where
  "fullConfig =
     \<lparr>Redirects = Some [''example.com/old'' \<mapsto> ''https://example.com/new''],
      Buckets = Some [''default'' \<mapsto> ''b1'', ''x.com'' \<mapsto> ''b2''],
      WebRoot = ''/app/'', Index = ''index.html'', HookPath = ''/-/notify'',
      GCSBase = ''https://gcs.example.com''\<rparr>"

text \<open>
  The same value, but with the byte \<open>FF\<close> in \<open>WebRoot\<close>: no well-formed UTF-8.
\<close>

definition invalidConfig :: appConfig where
  "invalidConfig =
     \<lparr>Redirects = Some [''example.com/old'' \<mapsto> ''https://example.com/new''],
      Buckets = Some [''default'' \<mapsto> ''b1'', ''x.com'' \<mapsto> ''b2''],
      WebRoot = [CHR ''/'', CHR 0xFF], Index = ''index.html'', HookPath = ''/-/notify'',
      GCSBase = ''https://gcs.example.com''\<rparr>"

text \<open>A process that has loaded \<open>fullConfig\<close> before.\<close>

definition loadedState :: state where
  "loadedState = \<lparr>config = fullConfig, trace = []\<rparr>"

text \<open>
  \<^verbatim>\<open>{"webroot":"","index":5,"redirects":null,"buckets":{"y.com":"b3","z.com":true}}\<close>:
  an object in which \<open>index\<close> and the bucket of \<open>z.com\<close> are no strings.
\<close>

definition partialDoc :: json where
  "partialDoc =
     JObject [(''webroot'', JString []), (''index'', JNumber ''5''), (''redirects'', JNull),
              (''buckets'', JObject [(''y.com'', JString ''b3''), (''z.com'', JBool True)])]"

subsection \<open>The decoder, step by step\<close>

lemma saveError_Some [simp]: "saveError err saved \<noteq> None"
  by (simp add: saveError_def split: option.splits)

lemma fst_storeString [simp]: "fst (storeString v (s, e)) = stringVal v s"
  by (cases v) simp_all

lemma snd_storeString: "snd (storeString v (s, e)) = None \<longleftrightarrow> e = None \<and> stringOK v"
  by (cases v) auto

lemma mapMember_eq: "mapMember kv (m, e) = (putElem kv m, snd (storeString (snd kv) ([], e)))"
proof -
  obtain k v where kv: "kv = (k, v)" by (cases kv)
  show ?thesis
    by (simp add: kv putElem_def case_prod_beta)
qed

lemma fst_fold_mapMember: "fst (fold mapMember ms (m, e)) = fold putElem ms m"
  by (induction ms arbitrary: m e) (simp_all add: mapMember_eq)

lemma snd_fold_mapMember:
  "snd (fold mapMember ms (m, e)) = None \<longleftrightarrow> e = None \<and> list_all (\<lambda>kv. stringOK (snd kv)) ms"
  by (induction ms arbitrary: m e) (simp_all add: mapMember_eq snd_storeString)

lemma mapVal_simps:
  "mapVal JNull m = None"
  "mapVal (JObject ms) m = Some (fold putElem ms (case m of None \<Rightarrow> Map.empty | Some x \<Rightarrow> x))"
  "mapVal (JBool b) m = m"
  "mapVal (JNumber n) m = m"
  "mapVal (JString t) m = m"
  "mapVal (JArray xs) m = m"
  by (simp_all add: mapVal_def case_prod_beta fst_fold_mapMember)

lemma fst_storeMap [simp]: "fst (storeMap v (m, e)) = mapVal v m"
  by (cases v) (simp_all add: mapVal_simps case_prod_beta fst_fold_mapMember)

lemma snd_storeMap: "snd (storeMap v (m, e)) = None \<longleftrightarrow> e = None \<and> mapOK v"
  by (cases v) (simp_all add: case_prod_beta snd_fold_mapMember)

lemma setField_simps:
  "findField k = None \<Longrightarrow> setField (k, v) c = c"
  "findField k = Some FRedirects \<Longrightarrow> setField (k, v) c = c\<lparr>Redirects := mapVal v (Redirects c)\<rparr>"
  "findField k = Some FBuckets \<Longrightarrow> setField (k, v) c = c\<lparr>Buckets := mapVal v (Buckets c)\<rparr>"
  "findField k = Some FWebRoot \<Longrightarrow> setField (k, v) c = c\<lparr>WebRoot := stringVal v (WebRoot c)\<rparr>"
  "findField k = Some FIndex \<Longrightarrow> setField (k, v) c = c\<lparr>Index := stringVal v (Index c)\<rparr>"
  "findField k = Some FHookPath \<Longrightarrow> setField (k, v) c = c\<lparr>HookPath := stringVal v (HookPath c)\<rparr>"
  "findField k = Some FGCSBase \<Longrightarrow> setField (k, v) c = c\<lparr>GCSBase := stringVal v (GCSBase c)\<rparr>"
  unfolding setField_def
  by (simp_all add: case_prod_beta)

lemma fst_structMember: "fst (structMember kv (c, e)) = setField kv c"
proof -
  obtain k v where kv: "kv = (k, v)" by (cases kv)
  show ?thesis
  proof (cases "findField k")
    case None
    then show ?thesis by (simp add: kv setField_def)
  next
    case (Some f)
    then show ?thesis
      unfolding kv setField_def
      by (cases f) (simp_all add: case_prod_beta)
  qed
qed

lemma snd_structMember:
  "snd (structMember kv (c, e)) = None \<longleftrightarrow> e = None \<and> memberOK kv"
proof -
  obtain k v where kv: "kv = (k, v)" by (cases kv)
  show ?thesis
  proof (cases "findField k")
    case None
    then show ?thesis by (simp add: kv memberOK_def)
  next
    case (Some f)
    then show ?thesis
      unfolding kv memberOK_def
      by (cases f) (simp_all add: case_prod_beta snd_storeString snd_storeMap)
  qed
qed

lemma structMember_eq:
  "structMember kv (c, e) = (setField kv c, snd (structMember kv (c, e)))"
  using fst_structMember [of kv c e] by (cases "structMember kv (c, e)") simp

lemma fst_fold_structMember: "fst (fold structMember ms (c, e)) = fold setField ms c"
proof (induction ms arbitrary: c e)
  case Nil
  show ?case by simp
next
  case (Cons kv ms)
  show ?case
    by (simp, subst structMember_eq, simp add: Cons.IH)
qed

lemma snd_fold_structMember:
  "snd (fold structMember ms (c, e)) = None \<longleftrightarrow> e = None \<and> list_all memberOK ms"
proof (induction ms arbitrary: c e)
  case Nil
  show ?case by simp
next
  case (Cons kv ms)
  show ?case
    by (simp, subst structMember_eq, simp add: Cons.IH snd_structMember)
qed

lemma unmarshal_ok: "snd (unmarshal j c) = None \<longleftrightarrow> conforms j"
  by (cases j) (simp_all add: snd_fold_structMember)

subsection \<open>What a decode does to each field\<close>

lemma members_of_Nil [simp]: "members_of f [] = []"
  by (simp add: members_of_def)

lemma members_of_Cons:
  "members_of f ((k, v) # ms) =
     (if findField k = Some f then v # members_of f ms else members_of f ms)"
  by (simp add: members_of_def)

lemma setField_fields:
  "Redirects (setField (k, v) c) =
     (if findField k = Some FRedirects then mapVal v (Redirects c) else Redirects c)"
  "Buckets (setField (k, v) c) =
     (if findField k = Some FBuckets then mapVal v (Buckets c) else Buckets c)"
  "WebRoot (setField (k, v) c) =
     (if findField k = Some FWebRoot then stringVal v (WebRoot c) else WebRoot c)"
  "Index (setField (k, v) c) =
     (if findField k = Some FIndex then stringVal v (Index c) else Index c)"
  "HookPath (setField (k, v) c) =
     (if findField k = Some FHookPath then stringVal v (HookPath c) else HookPath c)"
  "GCSBase (setField (k, v) c) =
     (if findField k = Some FGCSBase then stringVal v (GCSBase c) else GCSBase c)"
proof -
  consider "findField k = None" | f where "findField k = Some f" by (cases "findField k") auto
  then have
    "Redirects (setField (k, v) c) =
       (if findField k = Some FRedirects then mapVal v (Redirects c) else Redirects c) \<and>
     Buckets (setField (k, v) c) =
       (if findField k = Some FBuckets then mapVal v (Buckets c) else Buckets c) \<and>
     WebRoot (setField (k, v) c) =
       (if findField k = Some FWebRoot then stringVal v (WebRoot c) else WebRoot c) \<and>
     Index (setField (k, v) c) =
       (if findField k = Some FIndex then stringVal v (Index c) else Index c) \<and>
     HookPath (setField (k, v) c) =
       (if findField k = Some FHookPath then stringVal v (HookPath c) else HookPath c) \<and>
     GCSBase (setField (k, v) c) =
       (if findField k = Some FGCSBase then stringVal v (GCSBase c) else GCSBase c)"
  proof cases
    case 1
    then show ?thesis by (simp add: setField_simps)
  next
    case (2 f)
    then show ?thesis by (cases f) (simp_all add: setField_simps)
  qed
  then show
    "Redirects (setField (k, v) c) =
       (if findField k = Some FRedirects then mapVal v (Redirects c) else Redirects c)"
    "Buckets (setField (k, v) c) =
       (if findField k = Some FBuckets then mapVal v (Buckets c) else Buckets c)"
    "WebRoot (setField (k, v) c) =
       (if findField k = Some FWebRoot then stringVal v (WebRoot c) else WebRoot c)"
    "Index (setField (k, v) c) =
       (if findField k = Some FIndex then stringVal v (Index c) else Index c)"
    "HookPath (setField (k, v) c) =
       (if findField k = Some FHookPath then stringVal v (HookPath c) else HookPath c)"
    "GCSBase (setField (k, v) c) =
       (if findField k = Some FGCSBase then stringVal v (GCSBase c) else GCSBase c)"
    by simp_all
qed

lemma Redirects_fold:
  "Redirects (fold setField ms c) = fold mapVal (members_of FRedirects ms) (Redirects c)"
  by (induction ms arbitrary: c) (auto simp: members_of_Cons setField_fields)

lemma Buckets_fold:
  "Buckets (fold setField ms c) = fold mapVal (members_of FBuckets ms) (Buckets c)"
  by (induction ms arbitrary: c) (auto simp: members_of_Cons setField_fields)

lemma WebRoot_fold:
  "WebRoot (fold setField ms c) = fold stringVal (members_of FWebRoot ms) (WebRoot c)"
  by (induction ms arbitrary: c) (auto simp: members_of_Cons setField_fields)

lemma Index_fold:
  "Index (fold setField ms c) = fold stringVal (members_of FIndex ms) (Index c)"
  by (induction ms arbitrary: c) (auto simp: members_of_Cons setField_fields)

lemma HookPath_fold:
  "HookPath (fold setField ms c) = fold stringVal (members_of FHookPath ms) (HookPath c)"
  by (induction ms arbitrary: c) (auto simp: members_of_Cons setField_fields)

lemma GCSBase_fold:
  "GCSBase (fold setField ms c) = fold stringVal (members_of FGCSBase ms) (GCSBase c)"
  by (induction ms arbitrary: c) (auto simp: members_of_Cons setField_fields)

text \<open>The struct after \<open>unmarshal\<close>, field by field, from the values the document supplies.\<close>

lemma unmarshal_fields:
  "Redirects (fst (unmarshal j c)) = fold mapVal (supplied FRedirects j) (Redirects c)"
  "Buckets (fst (unmarshal j c)) = fold mapVal (supplied FBuckets j) (Buckets c)"
  "WebRoot (fst (unmarshal j c)) = fold stringVal (supplied FWebRoot j) (WebRoot c)"
  "Index (fst (unmarshal j c)) = fold stringVal (supplied FIndex j) (Index c)"
  "HookPath (fst (unmarshal j c)) = fold stringVal (supplied FHookPath j) (HookPath c)"
  "GCSBase (fst (unmarshal j c)) = fold stringVal (supplied FGCSBase j) (GCSBase c)"
  by (cases j; simp add: fst_fold_structMember Redirects_fold Buckets_fold WebRoot_fold
        Index_fold HookPath_fold GCSBase_fold)+

lemma unmarshal_not_object: "\<not> isObject j \<Longrightarrow> fst (unmarshal j c) = c"
  by (cases j) simp_all

lemma fold_stringVal_empty:
  "set vs \<subseteq> {JString []} \<Longrightarrow> fold stringVal vs [] = []"
  by (induction vs) auto

lemma fold_stringVal_last:
  "vs \<noteq> [] \<Longrightarrow> last vs = JString t \<Longrightarrow> fold stringVal vs s = t"
  by (induction vs arbitrary: s) (auto split: if_splits)

subsection \<open>readConfig, path by path\<close>

lemma readConfig_malformed:
  "fs e configFile = Inr (Malformed x) \<Longrightarrow>
   readConfig e s = (Some x, s\<lparr>trace := trace s @ [EvOpen configFile, EvRead, EvClose]\<rparr>)"
  by (simp add: readConfig_def readBody_def Close_def)

lemma readConfig_decode_failed:
  "fs e configFile = Inr (Document j) \<Longrightarrow> snd (unmarshal j (config s)) = Some x \<Longrightarrow>
   readConfig e s =
     (Some x, s\<lparr>config := fst (unmarshal j (config s)),
                 trace := trace s @ [EvOpen configFile, EvRead, EvClose]\<rparr>)"
  by (simp add: readConfig_def readBody_def Close_def case_prod_beta)

lemma readConfig_decoded:
  "fs e configFile = Inr (Document j) \<Longrightarrow> snd (unmarshal j (config s)) = None \<Longrightarrow>
   readConfig e s =
     (None, s\<lparr>config := fillDefaults (DefaultStorage_Base e) (fst (unmarshal j (config s))),
               trace := trace s @ [EvOpen configFile, EvRead, EvClose]\<rparr>)"
  by (simp add: readConfig_def readBody_def Close_def case_prod_beta)

lemma fillDefaults_fields:
  "Redirects (fillDefaults b c) = Redirects c"
  "Buckets (fillDefaults b c) = Buckets c"
  "Index (fillDefaults b c) = Index c"
  "WebRoot (fillDefaults b c) = (if WebRoot c = [] then ''/'' else WebRoot c)"
  "HookPath (fillDefaults b c) = (if HookPath c = [] then ''/-/hook/gcs'' else HookPath c)"
  "GCSBase (fillDefaults b c) = (if GCSBase c = [] then b else GCSBase c)"
  by (simp_all add: fillDefaults_def fillWebRoot_def fillHookPath_def fillGCSBase_def)


lemma fs_envOf [simp]: "fs (envOf r base) configFile = r"
  by (simp add: envOf_def)

lemma Base_envOf [simp]: "DefaultStorage_Base (envOf r base) = base"
  by (simp add: envOf_def)

lemma readConfig_success:
  assumes "fs e configFile = Inr (Document j)" and "readConfig e s = (None, s')"
  shows "conforms j"
    and "config s' = fillDefaults (DefaultStorage_Base e) (fst (unmarshal j (config s)))"
proof -
  have ok: "snd (unmarshal j (config s)) = None"
  proof (cases "snd (unmarshal j (config s))")
    case (Some x)
    then show ?thesis using assms by (simp add: readConfig_decode_failed)
  qed simp
  then show "conforms j" by (simp add: unmarshal_ok)
  show "config s' = fillDefaults (DefaultStorage_Base e) (fst (unmarshal j (config s)))"
    using assms ok by (auto simp: readConfig_decoded)
qed

lemma readConfig_failure:
  assumes "fs e configFile = Inr (Document j)" and "readConfig e s = (Some err, s')"
  shows "\<not> conforms j" and "config s' = fst (unmarshal j (config s))"
proof -
  have bad: "snd (unmarshal j (config s)) \<noteq> None"
  proof
    assume "snd (unmarshal j (config s)) = None"
    then show False using assms by (simp add: readConfig_decoded)
  qed
  then show "\<not> conforms j" by (simp add: unmarshal_ok)
  from bad obtain x where "snd (unmarshal j (config s)) = Some x" by auto
  then show "config s' = fst (unmarshal j (config s))"
    using assms by (auto simp: readConfig_decode_failed)
qed

subsection \<open>Encoding and decoding again\<close>

lemma fold_putElem_map:
  "fold putElem (map (\<lambda>k. (k, JString (g k))) ks) m =
     (\<lambda>x. if x \<in> set ks then Some (g x) else m x)"
proof (induction ks arbitrary: m)
  case Nil
  show ?case by simp
next
  case (Cons k ks)
  have "fold putElem (map (\<lambda>k. (k, JString (g k))) (k # ks)) m =
        fold putElem (map (\<lambda>k. (k, JString (g k))) ks) (m(k \<mapsto> g k))"
    by (simp add: putElem_def)
  also have "\<dots> = (\<lambda>x. if x \<in> set ks then Some (g x) else (m(k \<mapsto> g k)) x)"
    by (rule Cons.IH)
  also have "\<dots> = (\<lambda>x. if x \<in> set (k # ks) then Some (g x) else m x)"
    by (auto simp: fun_eq_iff)
  finally show ?case .
qed

lemma coerceUTF8_valid: "validUTF8 s \<Longrightarrow> coerceUTF8 s = s"
proof (induction s rule: validUTF8.induct)
  case 1
  show ?case by simp
next
  case (2 c cs)
  from "2.prems" have n: "runeLen (c # cs) \<noteq> 0"
    and v: "validUTF8 (drop (runeLen (c # cs)) (c # cs))"
    by (simp_all split: if_splits)
  have "coerceUTF8 (c # cs) =
      take (runeLen (c # cs)) (c # cs) @ coerceUTF8 (drop (runeLen (c # cs)) (c # cs))"
    using n by simp
  also have "\<dots> = take (runeLen (c # cs)) (c # cs) @ drop (runeLen (c # cs)) (c # cs)"
    using "2.IH" [OF n v] by simp
  finally show ?case by simp
qed

lemma coerceUTF8_FF: "coerceUTF8 [CHR ''/'', CHR 0xFF] = [CHR ''/'', CHR 0xEF, CHR 0xBF, CHR 0xBD]"
  by code_simp

lemma marshalMap_valid:
  assumes "validEntries ks (Some f)"
  shows "marshalMap ks (Some f) =
           JObject (map (\<lambda>k. (k, JString (case f k of None \<Rightarrow> [] | Some v \<Rightarrow> v))) ks)"
proof -
  have "(coerceUTF8 k, JString (coerceUTF8 (case f k of None \<Rightarrow> [] | Some v \<Rightarrow> v))) =
        (k, JString (case f k of None \<Rightarrow> [] | Some v \<Rightarrow> v))" if "k \<in> set ks" for k
  proof -
    from assms that have "validUTF8 k" and "case f k of None \<Rightarrow> True | Some v \<Rightarrow> validUTF8 v"
      by (simp_all add: validEntries_def list_all_iff)
    then show ?thesis
      by (cases "f k") (simp_all add: coerceUTF8_valid)
  qed
  then show ?thesis
    by (simp add: marshalMap_def)
qed

lemma mapVal_marshalMap:
  assumes "enumerates ks m" and "validEntries ks m"
  shows "mapVal (marshalMap ks m) None = m"
proof (cases m)
  case None
  then show ?thesis by (simp add: marshalMap_def mapVal_simps)
next
  case (Some f)
  have "(\<lambda>x. if x \<in> set ks then Some (case f x of None \<Rightarrow> [] | Some v \<Rightarrow> v) else None) = f"
    using assms(1) Some by (auto simp: enumerates_def fun_eq_iff split: option.splits)
  then show ?thesis
    using Some assms(2) by (simp add: marshalMap_valid mapVal_simps fold_putElem_map)
qed

lemma mapOK_marshalMap: "mapOK (marshalMap ks m)"
  by (cases m) (simp_all add: marshalMap_def list_all_iff)

lemma supplied_marshal:
  "supplied FRedirects (marshal rks bks c) = [marshalMap rks (Redirects c)]"
  "supplied FBuckets (marshal rks bks c) = [marshalMap bks (Buckets c)]"
  "supplied FWebRoot (marshal rks bks c) = [JString (coerceUTF8 (WebRoot c))]"
  "supplied FIndex (marshal rks bks c) = [JString (coerceUTF8 (Index c))]"
  "supplied FHookPath (marshal rks bks c) = [JString (coerceUTF8 (HookPath c))]"
  "supplied FGCSBase (marshal rks bks c) = [JString (coerceUTF8 (GCSBase c))]"
  by (simp_all add: marshal_def members_of_def findField_def fields_def)

lemma conforms_marshal: "conforms (marshal rks bks c)"
  by (simp add: marshal_def memberOK_def findField_def fields_def mapOK_marshalMap)

subsection \<open>Key matching at work\<close>

text \<open>
  An exact tag, a tag in another case, \<open>hoo\<close> followed by the Kelvin sign, \<open>gc\<close> followed by
  the long s, and a key that matches no tag.
\<close>

lemma findField_examples:
  "findField ''buckets'' = Some FBuckets"
  "findField ''WebRoot'' = Some FWebRoot"
  "findField [CHR ''h'', CHR ''o'', CHR ''o'', CHR 0xE2, CHR 0x84, CHR 0xAA] = Some FHookPath"
  "findField [CHR ''g'', CHR ''c'', CHR 0xC5, CHR 0xBF] = Some FGCSBase"
  "findField ''hooks'' = None"
  by code_simp+

subsection \<open>What the last member for a field leaves behind\<close>

lemma fold_stringVal_mem:
  "fold stringVal vs s = s \<or> JString (fold stringVal vs s) \<in> set vs"
proof (induction vs arbitrary: s)
  case Nil
  show ?case by simp
next
  case (Cons x vs)
  from Cons.IH [of "stringVal x s"] show ?case
    by (cases x) auto
qed

lemma fold_snoc: "vs \<noteq> [] \<Longrightarrow> fold f vs a = f (last vs) (fold f (butlast vs) a)"
proof -
  assume "vs \<noteq> []"
  then have "fold f vs a = fold f (butlast vs @ [last vs]) a" by simp
  then show ?thesis by (simp del: append_butlast_last_id)
qed

lemma fold_mapVal_last_null:
  "vs \<noteq> [] \<Longrightarrow> last vs = JNull \<Longrightarrow> fold mapVal vs m = None"
  by (simp add: fold_snoc mapVal_simps)

lemma fold_putElem_other:
  "k \<notin> fst ` set ms \<Longrightarrow> fold putElem ms m k = m k"
proof (induction ms arbitrary: m)
  case Nil
  show ?case by simp
next
  case (Cons a ms)
  have "fold putElem ms (putElem a m) k = putElem a m k"
    using Cons by simp
  moreover have "putElem a m k = m k"
    using Cons.prems by (simp add: putElem_def)
  ultimately show ?case by simp
qed

lemma fold_putElem_lookup:
  "map_of (rev ms) k = Some x \<Longrightarrow> fold putElem ms m k = Some (stringVal x [])"
proof (induction ms arbitrary: m)
  case Nil
  then show ?case by simp
next
  case (Cons kv ms)
  show ?case
  proof (cases "map_of (rev ms) k")
    case (Some y)
    then have "map_of (rev ms) k = Some x" using Cons.prems by (simp add: map_add_def)
    then show ?thesis using Cons.IH [of "putElem kv m"] by simp
  next
    case None
    then have kv: "fst kv = k" "snd kv = x"
      using Cons.prems by (auto simp: map_add_def split: if_splits)
    have notin: "k \<notin> fst ` set ms"
      using None by (simp add: map_of_eq_None_iff)
    have "fold putElem (kv # ms) m k = fold putElem ms (putElem kv m) k"
      by simp
    also have "\<dots> = putElem kv m k"
      using notin by (rule fold_putElem_other)
    also have "\<dots> = Some (stringVal x [])"
      by (simp add: putElem_def kv)
    finally show ?thesis .
  qed
qed

lemma fold_mapVal_last_object:
  assumes "vs \<noteq> []" and "last vs = JObject ms"
  shows "\<exists>m'. fold mapVal vs m = Some m' \<and>
           (\<forall>k x. map_of (rev ms) k = Some x \<longrightarrow> m' k = Some (stringVal x []))"
  using assms by (simp add: fold_snoc mapVal_simps fold_putElem_lookup)

section \<open>The properties of the specification\<close>

subsection \<open>Error paths\<close>

text \<open>
  C1, as the specification states it: when \<open>readConfig\<close> returns a decode error, \<open>config\<close>
  is exactly as it was before the call. This fails for a document that is well-formed
  JSON but does not match the struct: at \<^verbatim>\<open>{"webroot":"/x","index":5}\<close>, loaded into the
  zero-valued \<open>config\<close>, the call returns the type error for \<open>index\<close> and \<open>config.WebRoot\<close>
  is already \<open>/x\<close>.
\<close>

theorem decode_error_leaves_partial_config:
  "fst (readConfig (envOf (Inr (Document mismatchDoc)) gcsURL) initState)
     = Some (UnmarshalTypeError ''number'' ''string'') \<and>
   WebRoot (config initState) = [] \<and>
   WebRoot (config (snd (readConfig (envOf (Inr (Document mismatchDoc)) gcsURL) initState)))
     = ''/x'' \<and>
   config (snd (readConfig (envOf (Inr (Document mismatchDoc)) gcsURL) initState))
     \<noteq> config initState"
  by (simp add: readConfig_def readBody_def Close_def mismatchDoc_def initState_def
        zeroConfig_def findField_def fields_def saveError_def)

text \<open>
  C1, amended: when \<open>readConfig\<close> returns an error after the file was opened, then
  \<^item> if the contents are not valid JSON, the error is the decoder's and \<open>config\<close> is exactly
    as it was before the call;
  \<^item> if the contents are a JSON value that is not an object, \<open>config\<close> is exactly as it was
    before the call;
  \<^item> if the contents are an object, \<open>config\<close> holds what the decoder had stored, and no
    default has been filled in. A field for which the object has no member is as it was.
    A string field holds its value from before the call or a string that one of its
    members supplies; it holds the string of the last member for it when that member is
    a string, the empty string too. A map field is nil when the last member for it is
    \<open>null\<close>; when that member is an object, the map is allocated and binds every key of
    the object to the string of the key's last occurrence there (the empty string when
    that value is no string).
\<close>

theorem decode_error_slot_contents:
  assumes "fs e configFile = Inr r" and "readConfig e s = (Some err, s')"
  shows "(r = Malformed x \<longrightarrow> err = x \<and> config s' = config s) \<and>
         (r = Document j \<and> \<not> isObject j \<longrightarrow> config s' = config s) \<and>
         (r = Document j \<longrightarrow>
            (supplied FRedirects j = [] \<longrightarrow> Redirects (config s') = Redirects (config s)) \<and>
            (supplied FBuckets j = [] \<longrightarrow> Buckets (config s') = Buckets (config s)) \<and>
            (supplied FWebRoot j = [] \<longrightarrow> WebRoot (config s') = WebRoot (config s)) \<and>
            (supplied FIndex j = [] \<longrightarrow> Index (config s') = Index (config s)) \<and>
            (supplied FHookPath j = [] \<longrightarrow> HookPath (config s') = HookPath (config s)) \<and>
            (supplied FGCSBase j = [] \<longrightarrow> GCSBase (config s') = GCSBase (config s)) \<and>
            (WebRoot (config s') = WebRoot (config s) \<or>
               JString (WebRoot (config s')) \<in> set (supplied FWebRoot j)) \<and>
            (Index (config s') = Index (config s) \<or>
               JString (Index (config s')) \<in> set (supplied FIndex j)) \<and>
            (HookPath (config s') = HookPath (config s) \<or>
               JString (HookPath (config s')) \<in> set (supplied FHookPath j)) \<and>
            (GCSBase (config s') = GCSBase (config s) \<or>
               JString (GCSBase (config s')) \<in> set (supplied FGCSBase j)) \<and>
            (supplied FWebRoot j \<noteq> [] \<and> last (supplied FWebRoot j) = JString w
               \<longrightarrow> WebRoot (config s') = w) \<and>
            (supplied FIndex j \<noteq> [] \<and> last (supplied FIndex j) = JString i
               \<longrightarrow> Index (config s') = i) \<and>
            (supplied FHookPath j \<noteq> [] \<and> last (supplied FHookPath j) = JString h
               \<longrightarrow> HookPath (config s') = h) \<and>
            (supplied FGCSBase j \<noteq> [] \<and> last (supplied FGCSBase j) = JString g
               \<longrightarrow> GCSBase (config s') = g) \<and>
            (supplied FRedirects j \<noteq> [] \<and> last (supplied FRedirects j) = JNull
               \<longrightarrow> Redirects (config s') = None) \<and>
            (supplied FBuckets j \<noteq> [] \<and> last (supplied FBuckets j) = JNull
               \<longrightarrow> Buckets (config s') = None) \<and>
            (supplied FRedirects j \<noteq> [] \<and> last (supplied FRedirects j) = JObject rs
               \<longrightarrow> (\<exists>m. Redirects (config s') = Some m \<and>
                      (\<forall>k y. map_of (rev rs) k = Some y \<longrightarrow> m k = Some (stringVal y [])))) \<and>
            (supplied FBuckets j \<noteq> [] \<and> last (supplied FBuckets j) = JObject bs
               \<longrightarrow> (\<exists>m. Buckets (config s') = Some m \<and>
                      (\<forall>k y. map_of (rev bs) k = Some y \<longrightarrow> m k = Some (stringVal y [])))))"
proof (intro conjI impI)
  assume "r = Malformed x"
  then show "err = x" "config s' = config s"
    using assms by (auto simp: readConfig_malformed)
next
  assume "r = Document j \<and> \<not> isObject j"
  then show "config s' = config s"
    using readConfig_failure(2) [of e j s err s'] assms by (simp add: unmarshal_not_object)
next
  assume r: "r = Document j"
  have c: "config s' = fst (unmarshal j (config s))"
    using readConfig_failure(2) [of e j s err s'] assms r by simp
  {
    assume "supplied FRedirects j = []"
    then show "Redirects (config s') = Redirects (config s)" by (simp add: c unmarshal_fields)
  next
    assume "supplied FBuckets j = []"
    then show "Buckets (config s') = Buckets (config s)" by (simp add: c unmarshal_fields)
  next
    assume "supplied FWebRoot j = []"
    then show "WebRoot (config s') = WebRoot (config s)" by (simp add: c unmarshal_fields)
  next
    assume "supplied FIndex j = []"
    then show "Index (config s') = Index (config s)" by (simp add: c unmarshal_fields)
  next
    assume "supplied FHookPath j = []"
    then show "HookPath (config s') = HookPath (config s)" by (simp add: c unmarshal_fields)
  next
    assume "supplied FGCSBase j = []"
    then show "GCSBase (config s') = GCSBase (config s)" by (simp add: c unmarshal_fields)
  next
    show "WebRoot (config s') = WebRoot (config s) \<or>
          JString (WebRoot (config s')) \<in> set (supplied FWebRoot j)"
      unfolding c unmarshal_fields by (rule fold_stringVal_mem)
  next
    show "Index (config s') = Index (config s) \<or>
          JString (Index (config s')) \<in> set (supplied FIndex j)"
      unfolding c unmarshal_fields by (rule fold_stringVal_mem)
  next
    show "HookPath (config s') = HookPath (config s) \<or>
          JString (HookPath (config s')) \<in> set (supplied FHookPath j)"
      unfolding c unmarshal_fields by (rule fold_stringVal_mem)
  next
    show "GCSBase (config s') = GCSBase (config s) \<or>
          JString (GCSBase (config s')) \<in> set (supplied FGCSBase j)"
      unfolding c unmarshal_fields by (rule fold_stringVal_mem)
  next
    assume "supplied FWebRoot j \<noteq> [] \<and> last (supplied FWebRoot j) = JString w"
    then show "WebRoot (config s') = w" by (simp add: c unmarshal_fields fold_stringVal_last)
  next
    assume "supplied FIndex j \<noteq> [] \<and> last (supplied FIndex j) = JString i"
    then show "Index (config s') = i" by (simp add: c unmarshal_fields fold_stringVal_last)
  next
    assume "supplied FHookPath j \<noteq> [] \<and> last (supplied FHookPath j) = JString h"
    then show "HookPath (config s') = h" by (simp add: c unmarshal_fields fold_stringVal_last)
  next
    assume "supplied FGCSBase j \<noteq> [] \<and> last (supplied FGCSBase j) = JString g"
    then show "GCSBase (config s') = g" by (simp add: c unmarshal_fields fold_stringVal_last)
  next
    assume "supplied FRedirects j \<noteq> [] \<and> last (supplied FRedirects j) = JNull"
    then show "Redirects (config s') = None"
      by (simp add: c unmarshal_fields fold_mapVal_last_null)
  next
    assume "supplied FBuckets j \<noteq> [] \<and> last (supplied FBuckets j) = JNull"
    then show "Buckets (config s') = None"
      by (simp add: c unmarshal_fields fold_mapVal_last_null)
  next
    assume "supplied FRedirects j \<noteq> [] \<and> last (supplied FRedirects j) = JObject rs"
    then show "\<exists>m. Redirects (config s') = Some m \<and>
                 (\<forall>k y. map_of (rev rs) k = Some y \<longrightarrow> m k = Some (stringVal y []))"
      unfolding c unmarshal_fields by (intro fold_mapVal_last_object) simp_all
  next
    assume "supplied FBuckets j \<noteq> [] \<and> last (supplied FBuckets j) = JObject bs"
    then show "\<exists>m. Buckets (config s') = Some m \<and>
                 (\<forall>k y. map_of (rev bs) k = Some y \<longrightarrow> m k = Some (stringVal y []))"
      unfolding c unmarshal_fields by (intro fold_mapVal_last_object) simp_all
  }
qed

text \<open>
  The amended C1 at three files. Loaded into the zero-valued \<open>config\<close>: a file with a
  syntax error, and the array \<^verbatim>\<open>[]\<close>. Loaded into a \<open>config\<close> that holds \<open>fullConfig\<close>:
  \<^verbatim>\<open>{"webroot":"","index":5,"redirects":null,"buckets":{"y.com":"b3","z.com":true}}\<close>,
  which returns the type error for \<open>index\<close>, leaves \<open>WebRoot\<close> empty, \<open>Index\<close> and \<open>HookPath\<close>
  as they were, \<open>Redirects\<close> nil, and \<open>Buckets\<close> with two more keys.
\<close>

theorem decode_error_slot_contents_witness:
  "readConfig (envOf (Inr (Malformed syntaxErr)) gcsURL) initState
     = (Some syntaxErr, initState\<lparr>trace := [EvOpen configFile, EvRead, EvClose]\<rparr>) \<and>
   config (initState\<lparr>trace := [EvOpen configFile, EvRead, EvClose]\<rparr>) = config initState \<and>
   fst (readConfig (envOf (Inr (Document (JArray []))) gcsURL) initState)
     = Some (UnmarshalTypeError ''array'' ''server.appConfig'') \<and>
   config (snd (readConfig (envOf (Inr (Document (JArray []))) gcsURL) initState)) = config initState \<and>
   fst (readConfig (envOf (Inr (Document partialDoc)) gcsURL) loadedState)
     = Some (UnmarshalTypeError ''number'' ''string'') \<and>
   supplied FWebRoot partialDoc = [JString []] \<and>
   supplied FIndex partialDoc = [JNumber ''5''] \<and>
   supplied FHookPath partialDoc = [] \<and>
   supplied FRedirects partialDoc = [JNull] \<and>
   supplied FBuckets partialDoc = [JObject [(''y.com'', JString ''b3''), (''z.com'', JBool True)]] \<and>
   WebRoot (config (snd (readConfig (envOf (Inr (Document partialDoc)) gcsURL) loadedState))) = [] \<and>
   Index (config (snd (readConfig (envOf (Inr (Document partialDoc)) gcsURL) loadedState)))
     = ''index.html'' \<and>
   HookPath (config (snd (readConfig (envOf (Inr (Document partialDoc)) gcsURL) loadedState)))
     = ''/-/notify'' \<and>
   Redirects (config (snd (readConfig (envOf (Inr (Document partialDoc)) gcsURL) loadedState)))
     = None \<and>
   Buckets (config (snd (readConfig (envOf (Inr (Document partialDoc)) gcsURL) loadedState)))
     = Some [''default'' \<mapsto> ''b1'', ''x.com'' \<mapsto> ''b2'', ''y.com'' \<mapsto> ''b3'', ''z.com'' \<mapsto> []]"
proof -
  let ?e1 = "envOf (Inr (Malformed syntaxErr)) gcsURL"
  let ?e2 = "envOf (Inr (Document (JArray []))) gcsURL"
  let ?e3 = "envOf (Inr (Document partialDoc)) gcsURL"
  let ?s1 = "initState\<lparr>trace := [EvOpen configFile, EvRead, EvClose]\<rparr>"
  let ?s3 = "snd (readConfig ?e3 loadedState)"
  have r1: "readConfig ?e1 initState = (Some syntaxErr, ?s1)"
    by (simp add: readConfig_def readBody_def Close_def initState_def)
  have f2: "fst (readConfig ?e2 initState) = Some (UnmarshalTypeError ''array'' ''server.appConfig'')"
    by (simp add: readConfig_def readBody_def Close_def)
  have f3: "fst (readConfig ?e3 loadedState) = Some (UnmarshalTypeError ''number'' ''string'')"
    by (simp add: readConfig_def readBody_def Close_def partialDoc_def findField_def
          fields_def saveError_def)
  have r2: "readConfig ?e2 initState
     = (Some (UnmarshalTypeError ''array'' ''server.appConfig''), snd (readConfig ?e2 initState))"
    using f2 by (simp add: prod_eq_iff)
  have r3: "readConfig ?e3 loadedState = (Some (UnmarshalTypeError ''number'' ''string''), ?s3)"
    using f3 by (simp add: prod_eq_iff)
  have sup: "supplied FWebRoot partialDoc = [JString []]"
    "supplied FIndex partialDoc = [JNumber ''5'']"
    "supplied FHookPath partialDoc = []"
    "supplied FRedirects partialDoc = [JNull]"
    "supplied FBuckets partialDoc = [JObject [(''y.com'', JString ''b3''), (''z.com'', JBool True)]]"
    by (simp_all add: partialDoc_def members_of_def findField_def fields_def)
  have old: "Index (config loadedState) = ''index.html''"
    "HookPath (config loadedState) = ''/-/notify''"
    by (simp_all add: loadedState_def fullConfig_def)
  note t3 = decode_error_slot_contents [where j = partialDoc and w = "[]"
      and bs = "[(''y.com'', JString ''b3''), (''z.com'', JBool True)]", OF fs_envOf r3]
  have i1: "config ?s1 = config initState"
    using decode_error_slot_contents [where x = syntaxErr, OF fs_envOf r1] by simp
  have i2: "config (snd (readConfig ?e2 initState)) = config initState"
    using decode_error_slot_contents [where j = "JArray []", OF fs_envOf r2] by simp
  have w3: "WebRoot (config ?s3) = []"
    using t3 sup by simp
  have x3: "Index (config ?s3) = ''index.html''"
    using t3 sup old by simp
  have h3: "HookPath (config ?s3) = ''/-/notify''"
    using t3 sup old by simp
  have n3: "Redirects (config ?s3) = None"
    using t3 sup by simp
  have b3: "Buckets (config ?s3)
     = Some [''default'' \<mapsto> ''b1'', ''x.com'' \<mapsto> ''b2'', ''y.com'' \<mapsto> ''b3'', ''z.com'' \<mapsto> []]"
    by (simp add: readConfig_def readBody_def Close_def partialDoc_def findField_def
          fields_def saveError_def loadedState_def fullConfig_def)
  show ?thesis
    by (intro conjI) (rule r1 i1 f2 i2 f3 sup w3 x3 h3 n3 b3)+
qed

text \<open>
  C4: when \<open>config.json\<close> cannot be opened, \<open>readConfig\<close> returns the error of \<open>os.Open\<close> as
  it is, and nothing of the state has changed: \<open>config\<close> is untouched and no handle was
  opened.
\<close>

theorem open_error_returned_unchanged:
  assumes "fs e configFile = Inl err"
  shows "readConfig e s = (Some err, s)"
  using assms by (simp add: readConfig_def)

theorem open_error_returned_unchanged_witness:
  "fs (envOf (Inl noSuchFile) gcsURL) configFile = Inl noSuchFile \<and>
   readConfig (envOf (Inl noSuchFile) gcsURL) initState = (Some noSuchFile, initState)"
  using open_error_returned_unchanged [of "envOf (Inl noSuchFile) gcsURL" noSuchFile initState]
  by simp

text \<open>
  C9: on every path of \<open>readConfig\<close> after a successful \<open>os.Open\<close>, whatever the decoder
  finds in the file, the handle events of the call are: opened, read, closed. The
  handle is closed once, and closing is the last thing that happens.
\<close>

theorem handle_closed_once:
  assumes "fs e configFile = Inr r"
  shows "trace (snd (readConfig e s)) = trace s @ [EvOpen configFile, EvRead, EvClose] \<and>
         count_list (trace (snd (readConfig e s))) EvClose = count_list (trace s) EvClose + 1"
proof (cases r)
  case (Malformed x)
  then show ?thesis using assms by (simp add: readConfig_malformed)
next
  case (Document j)
  show ?thesis
  proof (cases "snd (unmarshal j (config s))")
    case None
    then show ?thesis using assms Document by (simp add: readConfig_decoded)
  next
    case (Some x)
    then show ?thesis using assms Document by (simp add: readConfig_decode_failed)
  qed
qed

text \<open>C9 on a load that succeeds and on one that fails in the decoder.\<close>

theorem handle_closed_once_witness:
  "fst (readConfig (envOf (Inr (Document scenarioDoc)) gcsURL) initState) = None \<and>
   trace (snd (readConfig (envOf (Inr (Document scenarioDoc)) gcsURL) initState))
     = [EvOpen configFile, EvRead, EvClose] \<and>
   fst (readConfig (envOf (Inr (Malformed syntaxErr)) gcsURL) initState) = Some syntaxErr \<and>
   trace (snd (readConfig (envOf (Inr (Malformed syntaxErr)) gcsURL) initState))
     = [EvOpen configFile, EvRead, EvClose]"
proof -
  have t0: "trace initState = []" by (simp add: initState_def)
  have a: "fst (readConfig (envOf (Inr (Document scenarioDoc)) gcsURL) initState) = None"
    by (simp add: readConfig_def readBody_def scenarioDoc_def findField_def fields_def)
  have b: "fst (readConfig (envOf (Inr (Malformed syntaxErr)) gcsURL) initState) = Some syntaxErr"
    by (simp add: readConfig_def readBody_def)
  show ?thesis
    using handle_closed_once [OF fs_envOf, of "Document scenarioDoc" gcsURL initState]
          handle_closed_once [OF fs_envOf, of "Malformed syntaxErr" gcsURL initState]
          a b t0
    by simp
qed

subsection \<open>Defaults\<close>

text \<open>
  C8: the three default-filling statements commute. Run in any of the six orders, or as
  one pass over the struct, they give the \<open>appConfig\<close> that the order of the source gives.
\<close>

theorem defaults_order_independent:
  "fillDefaults b c = fillGCSBase b (fillWebRoot (fillHookPath c)) \<and>
   fillDefaults b c = fillHookPath (fillGCSBase b (fillWebRoot c)) \<and>
   fillDefaults b c = fillHookPath (fillWebRoot (fillGCSBase b c)) \<and>
   fillDefaults b c = fillWebRoot (fillGCSBase b (fillHookPath c)) \<and>
   fillDefaults b c = fillWebRoot (fillHookPath (fillGCSBase b c)) \<and>
   fillDefaults b c = fillAtOnce b c"
proof -
  have wh: "fillWebRoot (fillHookPath x) = fillHookPath (fillWebRoot x)" for x
    by (simp add: fillWebRoot_def fillHookPath_def)
  have wg: "fillWebRoot (fillGCSBase b x) = fillGCSBase b (fillWebRoot x)" for x
    by (simp add: fillWebRoot_def fillGCSBase_def)
  have hg: "fillHookPath (fillGCSBase b x) = fillGCSBase b (fillHookPath x)" for x
    by (simp add: fillHookPath_def fillGCSBase_def)
  have once: "fillGCSBase b (fillHookPath (fillWebRoot c)) = fillAtOnce b c"
    by (simp add: fillAtOnce_def fillWebRoot_def fillHookPath_def fillGCSBase_def)
  show ?thesis
    unfolding fillDefaults_def by (simp add: wh wg hg once)
qed


text \<open>
  C2: take a load that succeeds, from a state in which the field is still empty (as it is
  in the zero-valued \<open>config\<close> of a process that has not loaded yet). If the document has
  no member for \<open>webroot\<close>, or only members that are the empty string, then \<open>WebRoot\<close> is
  \<open>/\<close> afterwards; likewise \<open>HookPath\<close> is \<open>/-/hook/gcs\<close> for \<open>hook\<close>, and \<open>GCSBase\<close> is
  the external \<open>weasel.DefaultStorage.Base\<close> for \<open>gcs\<close>.
\<close>

theorem omitted_fields_get_defaults:
  assumes "fs e configFile = Inr (Document j)" and "readConfig e s = (None, s')"
  shows "(WebRoot (config s) = [] \<and> set (supplied FWebRoot j) \<subseteq> {JString []}
            \<longrightarrow> WebRoot (config s') = ''/'') \<and>
         (HookPath (config s) = [] \<and> set (supplied FHookPath j) \<subseteq> {JString []}
            \<longrightarrow> HookPath (config s') = ''/-/hook/gcs'') \<and>
         (GCSBase (config s) = [] \<and> set (supplied FGCSBase j) \<subseteq> {JString []}
            \<longrightarrow> GCSBase (config s') = DefaultStorage_Base e)"
proof -
  have c: "config s' = fillDefaults (DefaultStorage_Base e) (fst (unmarshal j (config s)))"
    using readConfig_success(2) [OF assms] .
  show ?thesis
    by (simp add: c fillDefaults_fields unmarshal_fields fold_stringVal_empty)
qed

text \<open>
  C2 at \<^verbatim>\<open>{"buckets":{"default":"b1"},"hook":""}\<close>, loaded into the zero-valued \<open>config\<close>.
\<close>

theorem omitted_fields_get_defaults_witness:
  "fs (envOf (Inr (Document emptyHookDoc)) gcsURL) configFile = Inr (Document emptyHookDoc) \<and>
   fst (readConfig (envOf (Inr (Document emptyHookDoc)) gcsURL) initState) = None \<and>
   WebRoot (config initState) = [] \<and> supplied FWebRoot emptyHookDoc = [] \<and>
   HookPath (config initState) = [] \<and> supplied FHookPath emptyHookDoc = [JString []] \<and>
   GCSBase (config initState) = [] \<and> supplied FGCSBase emptyHookDoc = [] \<and>
   WebRoot (config (snd (readConfig (envOf (Inr (Document emptyHookDoc)) gcsURL) initState))) = ''/'' \<and>
   HookPath (config (snd (readConfig (envOf (Inr (Document emptyHookDoc)) gcsURL) initState)))
     = ''/-/hook/gcs'' \<and>
   GCSBase (config (snd (readConfig (envOf (Inr (Document emptyHookDoc)) gcsURL) initState))) = gcsURL"
proof -
  let ?e = "envOf (Inr (Document emptyHookDoc)) gcsURL"
  have f: "fst (readConfig ?e initState) = None"
    by (simp add: readConfig_def readBody_def emptyHookDoc_def findField_def fields_def)
  have r: "readConfig ?e initState = (None, snd (readConfig ?e initState))"
    using f by (simp add: prod_eq_iff)
  have z: "WebRoot (config initState) = []" "HookPath (config initState) = []"
    "GCSBase (config initState) = []"
    by (simp_all add: initState_def zeroConfig_def)
  have w: "supplied FWebRoot emptyHookDoc = []" "supplied FHookPath emptyHookDoc = [JString []]"
    "supplied FGCSBase emptyHookDoc = []"
    by (simp_all add: emptyHookDoc_def members_of_def findField_def fields_def)
  have d: "WebRoot (config (snd (readConfig ?e initState))) = ''/''"
    "HookPath (config (snd (readConfig ?e initState))) = ''/-/hook/gcs''"
    "GCSBase (config (snd (readConfig ?e initState))) = gcsURL"
    using omitted_fields_get_defaults [OF fs_envOf r] z w by simp_all
  show ?thesis
    by (intro conjI) (rule fs_envOf f z w d)+
qed

text \<open>
  C3: after a load that succeeds, whatever \<open>config\<close> held before, a field for which the
  document supplies a non-empty string holds that string: the defaults do not replace
  it. Where a document repeats a key, the value it supplies is that of the last member,
  as the decoder stores the members in order.
\<close>

theorem supplied_values_kept:
  assumes "fs e configFile = Inr (Document j)" and "readConfig e s = (None, s')"
  shows "(supplied FWebRoot j \<noteq> [] \<and> last (supplied FWebRoot j) = JString w \<and> w \<noteq> []
            \<longrightarrow> WebRoot (config s') = w) \<and>
         (supplied FHookPath j \<noteq> [] \<and> last (supplied FHookPath j) = JString h \<and> h \<noteq> []
            \<longrightarrow> HookPath (config s') = h) \<and>
         (supplied FGCSBase j \<noteq> [] \<and> last (supplied FGCSBase j) = JString g \<and> g \<noteq> []
            \<longrightarrow> GCSBase (config s') = g)"
proof -
  have c: "config s' = fillDefaults (DefaultStorage_Base e) (fst (unmarshal j (config s)))"
    using readConfig_success(2) [OF assms] .
  show ?thesis
    by (simp add: c fillDefaults_fields unmarshal_fields fold_stringVal_last)
qed

text \<open>C3 at a document that supplies \<open>webroot\<close>, \<open>hook\<close> and \<open>gcs\<close>.\<close>

theorem supplied_values_kept_witness:
  "fs (envOf (Inr (Document explicitDoc)) gcsURL) configFile = Inr (Document explicitDoc) \<and>
   fst (readConfig (envOf (Inr (Document explicitDoc)) gcsURL) initState) = None \<and>
   supplied FWebRoot explicitDoc = [JString ''/app/''] \<and>
   supplied FHookPath explicitDoc = [JString ''/-/notify''] \<and>
   supplied FGCSBase explicitDoc = [JString ''https://gcs.example.com''] \<and>
   WebRoot (config (snd (readConfig (envOf (Inr (Document explicitDoc)) gcsURL) initState)))
     = ''/app/'' \<and>
   HookPath (config (snd (readConfig (envOf (Inr (Document explicitDoc)) gcsURL) initState)))
     = ''/-/notify'' \<and>
   GCSBase (config (snd (readConfig (envOf (Inr (Document explicitDoc)) gcsURL) initState)))
     = ''https://gcs.example.com''"
proof -
  let ?e = "envOf (Inr (Document explicitDoc)) gcsURL"
  have f: "fst (readConfig ?e initState) = None"
    by (simp add: readConfig_def readBody_def explicitDoc_def findField_def fields_def)
  have r: "readConfig ?e initState = (None, snd (readConfig ?e initState))"
    using f by (simp add: prod_eq_iff)
  have w: "supplied FWebRoot explicitDoc = [JString ''/app/'']"
    "supplied FHookPath explicitDoc = [JString ''/-/notify'']"
    "supplied FGCSBase explicitDoc = [JString ''https://gcs.example.com'']"
    by (simp_all add: explicitDoc_def members_of_def findField_def fields_def)
  have d: "WebRoot (config (snd (readConfig ?e initState))) = ''/app/''"
    "HookPath (config (snd (readConfig ?e initState))) = ''/-/notify''"
    "GCSBase (config (snd (readConfig ?e initState))) = ''https://gcs.example.com''"
    using supplied_values_kept [OF fs_envOf r, of "''/app/''" "''/-/notify''" "''https://gcs.example.com''"] w
    by simp_all
  show ?thesis
    by (intro conjI) (rule fs_envOf f w d)+
qed

text \<open>
  C5: loading \<^verbatim>\<open>{"buckets":{"default":"b1"}}\<close> into the zero-valued \<open>config\<close> succeeds and
  leaves \<open>WebRoot = "/"\<close>, \<open>HookPath = "/-/hook/gcs"\<close>, \<open>GCSBase\<close> the external base URL,
  \<open>Buckets\<close> the map with the one entry \<open>default\<close> to \<open>b1\<close>, a nil \<open>Redirects\<close> and an
  empty \<open>Index\<close>.
\<close>

theorem scenario_default_bucket:
  assumes "fs e configFile = Inr (Document scenarioDoc)"
  shows "fst (readConfig e initState) = None \<and>
         config (snd (readConfig e initState)) =
           \<lparr>Redirects = None, Buckets = Some [''default'' \<mapsto> ''b1''], WebRoot = ''/'',
            Index = [], HookPath = ''/-/hook/gcs'', GCSBase = DefaultStorage_Base e\<rparr>"
  using assms
  by (simp add: readConfig_def readBody_def Close_def scenarioDoc_def findField_def fields_def
        initState_def zeroConfig_def fillDefaults_def fillWebRoot_def fillHookPath_def
        fillGCSBase_def)

theorem scenario_default_bucket_witness:
  "fs (envOf (Inr (Document scenarioDoc)) gcsURL) configFile = Inr (Document scenarioDoc) \<and>
   fst (readConfig (envOf (Inr (Document scenarioDoc)) gcsURL) initState) = None \<and>
   config (snd (readConfig (envOf (Inr (Document scenarioDoc)) gcsURL) initState)) =
     \<lparr>Redirects = None, Buckets = Some [''default'' \<mapsto> ''b1''], WebRoot = ''/'',
      Index = [], HookPath = ''/-/hook/gcs'', GCSBase = gcsURL\<rparr>"
  using scenario_default_bucket [of "envOf (Inr (Document scenarioDoc)) gcsURL"]
  by simp

subsection \<open>Decoding into the package variable\<close>

text \<open>
  C7: \<open>readConfig\<close> checks the shape of the document and nothing else. A document of the
  right shape loads without error, whatever the keys of \<open>buckets\<close> and whatever the
  strings in \<open>redirects\<close> are, and from any state.
\<close>

theorem no_content_validation:
  assumes "fs e configFile = Inr (Document j)" and "conforms j"
  shows "fst (readConfig e s) = None"
proof -
  have "snd (unmarshal j (config s)) = None"
    using assms(2) by (simp add: unmarshal_ok)
  then show ?thesis
    using assms(1) by (simp add: readConfig_decoded)
qed

text \<open>
  C7 at a document whose redirects end with \<open>/\<close> or carry a query string and whose
  buckets have no \<open>default\<close>: the load succeeds and the two maps are stored as written.
\<close>

theorem no_content_validation_witness:
  "conforms badContentDoc \<and>
   fst (readConfig (envOf (Inr (Document badContentDoc)) gcsURL) initState) = None \<and>
   Redirects (config (snd (readConfig (envOf (Inr (Document badContentDoc)) gcsURL) initState)))
     = Some [''example.com/a'' \<mapsto> ''https://example.org/a/'',
             ''example.com/b'' \<mapsto> ''https://example.org/b?x=1''] \<and>
   Buckets (config (snd (readConfig (envOf (Inr (Document badContentDoc)) gcsURL) initState)))
     = Some [''x.com'' \<mapsto> ''b2''] \<and>
   [''x.com'' \<mapsto> ''b2''] ''default'' = None"
proof -
  let ?e = "envOf (Inr (Document badContentDoc)) gcsURL"
  have c: "conforms badContentDoc"
    by (simp add: badContentDoc_def memberOK_def findField_def fields_def)
  have f: "fst (readConfig ?e initState) = None"
    using no_content_validation [OF fs_envOf c] .
  have r: "Redirects (config (snd (readConfig ?e initState)))
     = Some [''example.com/a'' \<mapsto> ''https://example.org/a/'',
             ''example.com/b'' \<mapsto> ''https://example.org/b?x=1'']"
    by (simp add: readConfig_def readBody_def Close_def badContentDoc_def findField_def fields_def
          initState_def zeroConfig_def fillDefaults_fields)
  have b: "Buckets (config (snd (readConfig ?e initState))) = Some [''x.com'' \<mapsto> ''b2'']"
    by (simp add: readConfig_def readBody_def Close_def badContentDoc_def findField_def fields_def
          initState_def zeroConfig_def fillDefaults_fields)
  have d: "[''x.com'' \<mapsto> ''b2''] ''default'' = None" by simp
  show ?thesis
    by (intro conjI) (rule c f r b d)+
qed


text \<open>
  C10: the decoder writes into \<open>config\<close> as it stands, not into a fresh struct. Whether
  the call succeeds or not, a map field or \<open>Index\<close> for which the document has no member
  keeps the value it had before the call, and so does a non-empty \<open>WebRoot\<close>, \<open>HookPath\<close>
  or \<open>GCSBase\<close>.
\<close>

theorem absent_fields_keep_old_values:
  assumes "fs e configFile = Inr (Document j)"
  shows "(supplied FRedirects j = [] \<longrightarrow>
            Redirects (config (snd (readConfig e s))) = Redirects (config s)) \<and>
         (supplied FBuckets j = [] \<longrightarrow>
            Buckets (config (snd (readConfig e s))) = Buckets (config s)) \<and>
         (supplied FIndex j = [] \<longrightarrow>
            Index (config (snd (readConfig e s))) = Index (config s)) \<and>
         (supplied FWebRoot j = [] \<and> WebRoot (config s) \<noteq> [] \<longrightarrow>
            WebRoot (config (snd (readConfig e s))) = WebRoot (config s)) \<and>
         (supplied FHookPath j = [] \<and> HookPath (config s) \<noteq> [] \<longrightarrow>
            HookPath (config (snd (readConfig e s))) = HookPath (config s)) \<and>
         (supplied FGCSBase j = [] \<and> GCSBase (config s) \<noteq> [] \<longrightarrow>
            GCSBase (config (snd (readConfig e s))) = GCSBase (config s))"
proof (cases "snd (unmarshal j (config s))")
  case None
  show ?thesis
    by (simp add: readConfig_decoded [OF assms None] fillDefaults_fields unmarshal_fields)
next
  case (Some x)
  show ?thesis
    by (simp add: readConfig_decode_failed [OF assms Some] unmarshal_fields)
qed

text \<open>
  C10 at two loads in a row: the second document names only \<open>hook\<close>, and the result
  mixes it with the \<open>webroot\<close>, \<open>index\<close> and \<open>buckets\<close> of the first. Loaded into the
  zero-valued \<open>config\<close>, the second document alone gives another result.
\<close>

theorem absent_fields_keep_old_values_witness:
  "supplied FIndex secondDoc = [] \<and> supplied FWebRoot secondDoc = [] \<and>
   supplied FBuckets secondDoc = [] \<and>
   config (snd (readConfig (envOf (Inr (Document firstDoc)) gcsURL) initState)) =
     \<lparr>Redirects = None, Buckets = Some [''default'' \<mapsto> ''b1''], WebRoot = ''/app/'',
      Index = ''index.html'', HookPath = ''/-/hook/gcs'', GCSBase = gcsURL\<rparr> \<and>
   config (snd (readConfig (envOf (Inr (Document secondDoc)) gcsURL)
                  (snd (readConfig (envOf (Inr (Document firstDoc)) gcsURL) initState)))) =
     \<lparr>Redirects = None, Buckets = Some [''default'' \<mapsto> ''b1''], WebRoot = ''/app/'',
      Index = ''index.html'', HookPath = ''/-/notify'', GCSBase = gcsURL\<rparr> \<and>
   config (snd (readConfig (envOf (Inr (Document secondDoc)) gcsURL) initState)) =
     \<lparr>Redirects = None, Buckets = None, WebRoot = ''/'',
      Index = [], HookPath = ''/-/notify'', GCSBase = gcsURL\<rparr>"
proof -
  let ?e1 = "envOf (Inr (Document firstDoc)) gcsURL"
  let ?e2 = "envOf (Inr (Document secondDoc)) gcsURL"
  let ?s1 = "snd (readConfig ?e1 initState)"
  let ?s2 = "snd (readConfig ?e2 ?s1)"
  have a: "supplied FIndex secondDoc = []" "supplied FWebRoot secondDoc = []"
    "supplied FBuckets secondDoc = []" "supplied FRedirects secondDoc = []"
    "supplied FGCSBase secondDoc = []"
    by (simp_all add: secondDoc_def members_of_def findField_def fields_def)
  have c1: "config ?s1 =
     \<lparr>Redirects = None, Buckets = Some [''default'' \<mapsto> ''b1''], WebRoot = ''/app/'',
      Index = ''index.html'', HookPath = ''/-/hook/gcs'', GCSBase = gcsURL\<rparr>"
    by (simp add: readConfig_def readBody_def Close_def firstDoc_def findField_def fields_def
        initState_def zeroConfig_def fillDefaults_def fillWebRoot_def fillHookPath_def
        fillGCSBase_def)
  have g: "gcsURL \<noteq> []" by (simp add: gcsURL_def)
  have k: "Redirects (config ?s2) = None" "Buckets (config ?s2) = Some [''default'' \<mapsto> ''b1'']"
    "Index (config ?s2) = ''index.html''" "WebRoot (config ?s2) = ''/app/''"
    "GCSBase (config ?s2) = gcsURL"
    using absent_fields_keep_old_values [OF fs_envOf, of secondDoc gcsURL ?s1] a g
    by (simp_all add: c1)
  have h: "HookPath (config ?s2) = ''/-/notify''"
    by (simp add: readConfig_def readBody_def Close_def secondDoc_def findField_def fields_def
        fillDefaults_def fillWebRoot_def fillHookPath_def fillGCSBase_def)
  have c2: "config ?s2 =
     \<lparr>Redirects = None, Buckets = Some [''default'' \<mapsto> ''b1''], WebRoot = ''/app/'',
      Index = ''index.html'', HookPath = ''/-/notify'', GCSBase = gcsURL\<rparr>"
    by (intro appConfig.equality) (simp_all add: k h)
  have c3: "config (snd (readConfig ?e2 initState)) =
     \<lparr>Redirects = None, Buckets = None, WebRoot = ''/'',
      Index = [], HookPath = ''/-/notify'', GCSBase = gcsURL\<rparr>"
    by (simp add: readConfig_def readBody_def Close_def secondDoc_def findField_def fields_def
        initState_def zeroConfig_def fillDefaults_def fillWebRoot_def fillHookPath_def
        fillGCSBase_def)
  show ?thesis
    by (intro conjI) (rule a c1 c2 c3)+
qed


text \<open>
  C6, as the specification states it: for every fully populated \<open>appConfig\<close>, encoding it
  and loading the document gives back every field that was not at its default. This fails
  for a string that is no well-formed UTF-8, which JSON cannot carry: \<open>encoding/json\<close>
  writes U+FFFD for the byte \<open>FF\<close>, so a \<open>WebRoot\<close> of \<open>/\<close> followed by \<open>FF\<close> comes back as
  \<open>/\<close> followed by \<open>EF BF BD\<close>.
\<close>

theorem roundtrip_loses_invalid_utf8:
  "enumerates [''example.com/old''] (Redirects invalidConfig) \<and>
   enumerates [''default'', ''x.com''] (Buckets invalidConfig) \<and>
   WebRoot invalidConfig = [CHR ''/'', CHR 0xFF] \<and>
   fst (readConfig
         (envOf (Inr (Document (marshal [''example.com/old''] [''default'', ''x.com''] invalidConfig))) gcsURL)
         initState) = None \<and>
   WebRoot (config (snd (readConfig
         (envOf (Inr (Document (marshal [''example.com/old''] [''default'', ''x.com''] invalidConfig))) gcsURL)
         initState))) = [CHR ''/'', CHR 0xEF, CHR 0xBF, CHR 0xBD] \<and>
   WebRoot (config (snd (readConfig
         (envOf (Inr (Document (marshal [''example.com/old''] [''default'', ''x.com''] invalidConfig))) gcsURL)
         initState))) \<noteq> WebRoot invalidConfig"
proof -
  let ?j = "marshal [''example.com/old''] [''default'', ''x.com''] invalidConfig"
  let ?e = "envOf (Inr (Document ?j)) gcsURL"
  have a: "enumerates [''example.com/old''] (Redirects invalidConfig)"
    by (simp add: enumerates_def invalidConfig_def)
  have b: "enumerates [''default'', ''x.com''] (Buckets invalidConfig)"
    by (auto simp: enumerates_def invalidConfig_def)
  have w: "WebRoot invalidConfig = [CHR ''/'', CHR 0xFF]"
    by (simp add: invalidConfig_def)
  have ok: "snd (unmarshal ?j (config initState)) = None"
    by (simp add: unmarshal_ok conforms_marshal)
  have r: "readConfig ?e initState =
     (None, initState\<lparr>config := fillDefaults gcsURL (fst (unmarshal ?j (config initState))),
               trace := trace initState @ [EvOpen configFile, EvRead, EvClose]\<rparr>)"
    using readConfig_decoded [OF fs_envOf ok, of gcsURL] by simp
  have f: "fst (readConfig ?e initState) = None"
    by (simp add: r)
  have x0: "WebRoot (config (snd (readConfig ?e initState))) =
      (if coerceUTF8 (WebRoot invalidConfig) = [] then ''/'' else coerceUTF8 (WebRoot invalidConfig))"
    by (simp add: r fillDefaults_fields unmarshal_fields supplied_marshal)
  have x: "WebRoot (config (snd (readConfig ?e initState))) = [CHR ''/'', CHR 0xEF, CHR 0xBF, CHR 0xBD]"
    using x0 unfolding w coerceUTF8_FF by simp
  have n: "WebRoot (config (snd (readConfig ?e initState))) \<noteq> WebRoot invalidConfig"
    by (simp add: x w)
  show ?thesis
    by (intro conjI) (rule a b w f x n)+
qed

text \<open>
  C6, amended: take an \<open>appConfig\<close> whose strings (the four string fields, and the keys
  and values of both maps) are well-formed UTF-8; encode it with the declared keys and load
  the document into the zero-valued \<open>config\<close>. The load succeeds; \<open>Redirects\<close>, \<open>Buckets\<close>
  and \<open>Index\<close> come back as they were, and so does each of \<open>WebRoot\<close>, \<open>HookPath\<close> and
  \<open>GCSBase\<close> that was not empty.
\<close>

theorem encode_load_roundtrip:
  assumes "fs e configFile = Inr (Document (marshal rks bks c))"
    and "enumerates rks (Redirects c)" and "enumerates bks (Buckets c)"
    and "validStrings rks bks c"
  shows "fst (readConfig e initState) = None \<and>
         Redirects (config (snd (readConfig e initState))) = Redirects c \<and>
         Buckets (config (snd (readConfig e initState))) = Buckets c \<and>
         Index (config (snd (readConfig e initState))) = Index c \<and>
         (WebRoot c \<noteq> [] \<longrightarrow> WebRoot (config (snd (readConfig e initState))) = WebRoot c) \<and>
         (HookPath c \<noteq> [] \<longrightarrow> HookPath (config (snd (readConfig e initState))) = HookPath c) \<and>
         (GCSBase c \<noteq> [] \<longrightarrow> GCSBase (config (snd (readConfig e initState))) = GCSBase c)"
proof -
  let ?j = "marshal rks bks c"
  have ok: "snd (unmarshal ?j (config initState)) = None"
    by (simp add: unmarshal_ok conforms_marshal)
  have r: "readConfig e initState =
     (None, initState\<lparr>config := fillDefaults (DefaultStorage_Base e) (fst (unmarshal ?j (config initState))),
               trace := trace initState @ [EvOpen configFile, EvRead, EvClose]\<rparr>)"
    using readConfig_decoded [OF assms(1) ok] .
  have z: "config initState = zeroConfig" by (simp add: initState_def)
  have v: "coerceUTF8 (WebRoot c) = WebRoot c" "coerceUTF8 (Index c) = Index c"
    "coerceUTF8 (HookPath c) = HookPath c" "coerceUTF8 (GCSBase c) = GCSBase c"
    and vm: "validEntries rks (Redirects c)" "validEntries bks (Buckets c)"
    using assms(4) by (simp_all add: validStrings_def coerceUTF8_valid)
  have m: "Redirects (fst (unmarshal ?j zeroConfig)) = Redirects c"
    "Buckets (fst (unmarshal ?j zeroConfig)) = Buckets c"
    using assms(2,3) vm
    by (simp_all add: unmarshal_fields supplied_marshal zeroConfig_def mapVal_marshalMap)
  have s: "Index (fst (unmarshal ?j zeroConfig)) = Index c"
    "WebRoot (fst (unmarshal ?j zeroConfig)) = WebRoot c"
    "HookPath (fst (unmarshal ?j zeroConfig)) = HookPath c"
    "GCSBase (fst (unmarshal ?j zeroConfig)) = GCSBase c"
    by (simp_all add: unmarshal_fields supplied_marshal v)
  show ?thesis
    by (simp add: r z fillDefaults_fields m s)
qed

text \<open>C6, amended, at a fully populated value: the whole struct comes back.\<close>

theorem encode_load_roundtrip_witness:
  "enumerates [''example.com/old''] (Redirects fullConfig) \<and>
   enumerates [''default'', ''x.com''] (Buckets fullConfig) \<and>
   validStrings [''example.com/old''] [''default'', ''x.com''] fullConfig \<and>
   fst (readConfig
         (envOf (Inr (Document (marshal [''example.com/old''] [''default'', ''x.com''] fullConfig))) gcsURL)
         initState) = None \<and>
   config (snd (readConfig
         (envOf (Inr (Document (marshal [''example.com/old''] [''default'', ''x.com''] fullConfig))) gcsURL)
         initState)) = fullConfig"
proof -
  let ?e = "envOf (Inr (Document (marshal [''example.com/old''] [''default'', ''x.com''] fullConfig))) gcsURL"
  have a: "enumerates [''example.com/old''] (Redirects fullConfig)"
    by (simp add: enumerates_def fullConfig_def)
  have b: "enumerates [''default'', ''x.com''] (Buckets fullConfig)"
    by (auto simp: enumerates_def fullConfig_def)
  have v: "validStrings [''example.com/old''] [''default'', ''x.com''] fullConfig"
    by code_simp
  have n: "WebRoot fullConfig \<noteq> []" "HookPath fullConfig \<noteq> []" "GCSBase fullConfig \<noteq> []"
    by (simp_all add: fullConfig_def)
  have t: "fst (readConfig ?e initState) = None \<and>
     Redirects (config (snd (readConfig ?e initState))) = Redirects fullConfig \<and>
     Buckets (config (snd (readConfig ?e initState))) = Buckets fullConfig \<and>
     Index (config (snd (readConfig ?e initState))) = Index fullConfig \<and>
     WebRoot (config (snd (readConfig ?e initState))) = WebRoot fullConfig \<and>
     HookPath (config (snd (readConfig ?e initState))) = HookPath fullConfig \<and>
     GCSBase (config (snd (readConfig ?e initState))) = GCSBase fullConfig"
    using encode_load_roundtrip [OF fs_envOf a b v, of gcsURL] n by simp
  then have "config (snd (readConfig ?e initState)) = fullConfig"
    by (intro appConfig.equality) simp_all
  with a b v t show ?thesis by simp
qed

end
